theory Spec2Isabelle
  imports Complex_Main "HOL-Library.Sublist" "HOL-Library.Product_Lexorder" "HOL-Library.Multiset"
begin

section \<open>Pure ROR Matcher: the data model\<close>

text \<open>
  The application is one React component (\<^verbatim>\<open>App\<close>) with a handful of helper
  functions. JavaScript numbers that carry scores are modelled as \<^typ>\<open>real\<close> (the
  code only compares and copies them), optional fields as \<^typ>\<open>'a option\<close>
  (\<open>None\<close> is \<^verbatim>\<open>undefined\<close>), strings as \<^typ>\<open>string\<close>. Fields that only
  the markup reads (address, organisation type, links, acronyms) are left out.
\<close>

type_synonym LocaleMap = "(string \<times> string) list"
  \<comment> \<open>an object with locale tags as keys, in the order of \<^verbatim>\<open>Object.keys\<close>\<close>

record IdentifierType =
  idt_uri :: "string option"  \<comment> \<open>\<open>Some u\<close> exactly when \<^verbatim>\<open>typeof type.uri === "string"\<close>\<close>
  idt_term :: LocaleMap

text \<open>
  \<^verbatim>\<open>type Identifier = ClassifiedId | any\<close>: the discriminator is any string or absent,
  and so is the type reference.
\<close>

record Identifier =
  typeDiscriminator :: "string option"
  ident_id :: "string option"
  ident_type :: "IdentifierType option"

record ExtOrgItem =
  uuid :: string
  version :: string
  org_name :: "LocaleMap option"
  identifiers :: "Identifier list option"
  workflow_step :: "string option"  \<comment> \<open>\<^verbatim>\<open>workflow?.step\<close>\<close>

record PageResponse =
  page_count :: nat
  page_items :: "ExtOrgItem list"

record RorName =
  nm_value :: string
  nm_types :: "string list option"

datatype Location = Location (country_name: "string option") (place_name: "string option")

record RorOrg =
  ror_id :: "string option"
  ror_name :: "string option"
  ror_names :: "RorName list option"
  ror_aliases :: "string list option"
  ror_locations :: "Location list option"

text \<open>A candidate is \<^verbatim>\<open>RorOrg & { scoreLocal, matching_type, chosen, substring }\<close>.\<close>

record Candidate = RorOrg +
  scoreLocal :: real
  matching_type :: "string option"
  chosen :: bool
  substring :: "string option"

record HistoryEntry =
  ts :: nat
  h_uuid :: string
  orgName :: string
  rorId :: "string option"
  score :: real
  matchType :: "string option"

section \<open>Helpers\<close>

subsection \<open>String primitives of the host language\<close>

text \<open>
  \<^verbatim>\<open>String.prototype.toLowerCase\<close> and \<^verbatim>\<open>trim\<close>, on the ASCII range (a
  \<^typ>\<open>char\<close> is a byte); \<^verbatim>\<open>endsWith\<close> is \<^const>\<open>suffix\<close>.
\<close>

definition lower_char :: "char \<Rightarrow> char" where
  "lower_char c = (let n = (of_char c :: nat) in if 65 \<le> n \<and> n \<le> 90 then char_of (n + 32) else c)"

definition toLowerCase :: "string \<Rightarrow> string" where
  "toLowerCase s = map lower_char s"

definition isSpace :: "char \<Rightarrow> bool" where
  "isSpace c = (let n = (of_char c :: nat) in n = 32 \<or> (9 \<le> n \<and> n \<le> 13))"

definition trim :: "string \<Rightarrow> string" where
  "trim s = rev (dropWhile isSpace (rev (dropWhile isSpace s)))"

text \<open>\<^verbatim>\<open>s.replace(pat, rep)\<close> with a string pattern: the first occurrence only.\<close>

fun replace_first :: "string \<Rightarrow> string \<Rightarrow> string \<Rightarrow> string" where
  "replace_first pat rep [] = (if pat = [] then rep else [])"
| "replace_first pat rep (c # cs) =
     (if prefix pat (c # cs) then rep @ drop (length pat) (c # cs)
      else c # replace_first pat rep cs)"

text \<open>\<^verbatim>\<open>Array.from(new Set(xs))\<close>: the first occurrence of each element, in order.\<close>

fun dedupe :: "'a list \<Rightarrow> 'a list \<Rightarrow> 'a list" where
  "dedupe seen [] = []"
| "dedupe seen (x # xs) = (if x \<in> set seen then dedupe seen xs else x # dedupe (x # seen) xs)"

definition from_Set :: "'a list \<Rightarrow> 'a list" where
  "from_Set xs = dedupe [] xs"

subsection \<open>pickPreferredLocale\<close>

fun first_preferred :: "LocaleMap \<Rightarrow> string list \<Rightarrow> (string \<times> string) option" where
  "first_preferred m [] = None"
| "first_preferred m (k # ks) =
     (case map_of m k of
        Some v \<Rightarrow> (if v \<noteq> [] then Some (v, k) else first_preferred m ks)
      | None \<Rightarrow> first_preferred m ks)"

definition pickPreferredLocale :: "LocaleMap option \<Rightarrow> string \<times> string" where
  "pickPreferredLocale mp =
     (case mp of
        None \<Rightarrow> ([], [])
      | Some m \<Rightarrow>
          (case first_preferred m [''en_GB'', ''da_DK''] of
             Some r \<Rightarrow> r
           | None \<Rightarrow>
               (case m of
                  [] \<Rightarrow> ([], [])
                | (k, v) # _ \<Rightarrow> (if k \<noteq> [] then (v, k) else ([], k)))))"

subsection \<open>hasRorIdentifier\<close>

definition isRorIdentifier :: "Identifier \<Rightarrow> bool" where
  "isRorIdentifier i =
     (typeDiscriminator i = Some ''ClassifiedId'' \<and>
      (case ident_type i of
         None \<Rightarrow> False
       | Some t \<Rightarrow> (case idt_uri t of None \<Rightarrow> False | Some u \<Rightarrow> suffix ''/ror'' u)))"

definition hasRorIdentifier :: "Identifier list option \<Rightarrow> bool" where
  "hasRorIdentifier ids = (case ids of None \<Rightarrow> False | Some xs \<Rightarrow> list_ex isRorIdentifier xs)"

subsection \<open>rorDisplayName and rorAliasList\<close>

definition has_type :: "string \<Rightarrow> RorName \<Rightarrow> bool" where
  "has_type t n = (case nm_types n of None \<Rightarrow> False | Some tys \<Rightarrow> t \<in> set tys)"

definition pick_name :: "RorName list option \<Rightarrow> RorName option" where
  "pick_name ns =
     (case ns of
        None \<Rightarrow> None
      | Some xs \<Rightarrow>
          (case find (has_type ''ror_display'') xs of
             Some n \<Rightarrow> Some n
           | None \<Rightarrow>
               (case find (has_type ''label'') xs of
                  Some n \<Rightarrow> Some n
                | None \<Rightarrow> (case xs of [] \<Rightarrow> None | n # _ \<Rightarrow> Some n))))"

text \<open>
  The result is \<open>None\<close> when the function returns \<^verbatim>\<open>undefined\<close>: no usable name
  and no id.
\<close>

definition rorDisplayName :: "'a RorOrg_scheme \<Rightarrow> string option" where
  "rorDisplayName r =
     (let fallback =
            (case pick_name (ror_names r) of
               Some p \<Rightarrow> (if nm_value p \<noteq> [] then Some (nm_value p) else ror_id r)
             | None \<Rightarrow> ror_id r)
      in case ror_name r of
           Some n \<Rightarrow> (if n \<noteq> [] \<and> trim n \<noteq> [] then Some n else fallback)
         | None \<Rightarrow> fallback)"

datatype js_error = Error string | TypeError string | SyntaxError string

definition fromNames :: "'a RorOrg_scheme \<Rightarrow> string list" where
  "fromNames r =
     filter (\<lambda>v. v \<noteq> [])
       (map nm_value (filter (has_type ''alias'') (case ror_names r of None \<Rightarrow> [] | Some ns \<Rightarrow> ns)))"

definition fromAliasesField :: "'a RorOrg_scheme \<Rightarrow> string list" where
  "fromAliasesField r = (case ror_aliases r of None \<Rightarrow> [] | Some al \<Rightarrow> al)"

text \<open>
  \<^verbatim>\<open>rorDisplayName(r).toLowerCase()\<close> throws a \<^verbatim>\<open>TypeError\<close> when the display
  name is \<^verbatim>\<open>undefined\<close>.
\<close>

definition rorAliasList :: "'a RorOrg_scheme \<Rightarrow> js_error + string list" where
  "rorAliasList r =
     (case rorDisplayName r of
        None \<Rightarrow> Inl (TypeError ''Cannot read properties of undefined (reading 'toLowerCase')'')
      | Some d \<Rightarrow>
          (let display = toLowerCase d;
               merged = from_Set (fromAliasesField r @ fromNames r)
           in Inr (filter (\<lambda>a. a \<noteq> [] \<and> toLowerCase a \<noteq> display) merged)))"

section \<open>Progress: points and history\<close>

text \<open>\<^verbatim>\<open>const award = sl >= 0.8 ? 10 : sl >= 0.6 ? 5 : 1\<close>\<close>

definition award :: "real \<Rightarrow> int" where
  "award sl = (if sl \<ge> 0.8 then 10 else if sl \<ge> 0.6 then 5 else 1)"

text \<open>The updater passed to \<^verbatim>\<open>setHistory\<close>: \<^verbatim>\<open>[entry, ...h].slice(0, 50)\<close>.\<close>

definition pushHistory :: "'e \<Rightarrow> 'e list \<Rightarrow> 'e list" where
  "pushHistory entry h = take 50 (entry # h)"

section \<open>Ranking\<close>

text \<open>
  \<^verbatim>\<open>Array.prototype.sort\<close> with a comparator is a stable sort (ECMAScript 2019); it is
  modelled by insertion sort, which places an element before the first one it does not
  compare greater than.
\<close>

fun insort_cmp :: "('a \<Rightarrow> 'a \<Rightarrow> real) \<Rightarrow> 'a \<Rightarrow> 'a list \<Rightarrow> 'a list" where
  "insort_cmp cmp x [] = [x]"
| "insort_cmp cmp x (y # ys) = (if cmp x y \<le> 0 then x # y # ys else y # insort_cmp cmp x ys)"

definition js_sort :: "('a \<Rightarrow> 'a \<Rightarrow> real) \<Rightarrow> 'a list \<Rightarrow> 'a list" where
  "js_sort cmp xs = foldr (insort_cmp cmp) xs []"

text \<open>
  \<^verbatim>\<open>(a, b) => Number(!!b.chosen) - Number(!!a.chosen) || b.scoreLocal - a.scoreLocal\<close>
\<close>

definition rank_cmp :: "Candidate \<Rightarrow> Candidate \<Rightarrow> real" where
  "rank_cmp a b =
     (let d = (of_bool (chosen b) :: real) - of_bool (chosen a)
      in if d \<noteq> 0 then d else scoreLocal b - scoreLocal a)"

definition rank :: "Candidate list \<Rightarrow> Candidate list" where
  "rank items = js_sort rank_cmp items"

section \<open>Loading the stored progress\<close>

text \<open>
  \<^verbatim>\<open>parseInt(s, 10)\<close>: leading white space, an optional sign, then the longest run of
  decimal digits; \<open>None\<close> is \<^verbatim>\<open>NaN\<close>, the result when there is no digit. The points
  are a JavaScript number that is an integer or \<^verbatim>\<open>NaN\<close>; the rounding of values
  beyond 2^53 is left out.
\<close>

definition isDigit :: "char \<Rightarrow> bool" where
  "isDigit c = (let n = (of_char c :: nat) in 48 \<le> n \<and> n \<le> 57)"

definition digits_value :: "string \<Rightarrow> nat" where
  "digits_value ds = foldl (\<lambda>a c. 10 * a + (of_char c - 48)) 0 ds"

definition parseInt :: "string \<Rightarrow> int option" where
  "parseInt s =
     (let t = dropWhile isSpace s;
          neg = (case t of [] \<Rightarrow> False | c # _ \<Rightarrow> c = CHR ''-'');
          u = (case t of [] \<Rightarrow> [] | c # r \<Rightarrow> if c = CHR ''-'' \<or> c = CHR ''+'' then r else t);
          ds = takeWhile isDigit u
      in if ds = [] then None
         else Some (if neg then - int (digits_value ds) else int (digits_value ds)))"

text \<open>
  \<^verbatim>\<open>parseInt(localStorage.getItem("ror_match_points") || "0", 10)\<close>; the argument is what
  \<^verbatim>\<open>getItem\<close> returns, \<open>None\<close> for \<^verbatim>\<open>null\<close>.
\<close>

definition load_points :: "string option \<Rightarrow> int option" where
  "load_points stored =
     parseInt (case stored of None \<Rightarrow> ''0'' | Some s \<Rightarrow> if s = [] then ''0'' else s)"

text \<open>
  \<^verbatim>\<open>try { return JSON.parse(getItem(...) || "[]") } catch { return [] }\<close>. The parser
  is a parameter: \<open>parse s = None\<close> when \<^verbatim>\<open>JSON.parse\<close> throws; \<open>none\<close> is the
  value of \<^verbatim>\<open>[]\<close>.
\<close>

definition load_history :: "(string \<Rightarrow> 'v option) \<Rightarrow> 'v \<Rightarrow> string option \<Rightarrow> 'v" where
  "load_history parse none stored =
     (case parse (case stored of None \<Rightarrow> ''[]'' | Some s \<Rightarrow> if s = [] then ''[]'' else s) of
        None \<Rightarrow> none
      | Some v \<Rightarrow> v)"

section \<open>The two APIs\<close>

text \<open>
  A response of \<^verbatim>\<open>fetch\<close>: the promise is rejected (a network failure, a
  \<^verbatim>\<open>TypeError\<close>), or it carries a status and a body that \<^verbatim>\<open>res.json()\<close> parses
  or not. \<^verbatim>\<open>res.ok\<close> is a status from 200 to 299.
\<close>

datatype 'a body = Unparsable string | Json 'a

datatype 'a response = Rejected string | Response nat string "'a body"

definition is_ok :: "nat \<Rightarrow> bool" where
  "is_ok st = (200 \<le> st \<and> st \<le> 299)"

datatype jsnum = Finite real | NaN | PosInfinity | NegInfinity

record RawHit =
  organization :: "RorOrg option"
  hit_score :: "jsnum option"
  hit_matching_type :: "string option"  \<comment> \<open>\<open>Some\<close> when the field is a string\<close>
  hit_chosen :: bool  \<comment> \<open>the truthiness of the field\<close>
  hit_substring :: "string option"

datatype request =
    GetPage nat  \<comment> \<open>\<^verbatim>\<open>GET /external-organizations?size=1&offset=n\<close>\<close>
  | GetOrg string  \<comment> \<open>\<^verbatim>\<open>GET /external-organizations/{uuid}\<close>\<close>
  | PutOrg string string "Identifier list"  \<comment> \<open>\<^verbatim>\<open>PUT /external-organizations/{uuid}\<close>, body: version and identifiers\<close>
  | RorSearch string  \<comment> \<open>\<^verbatim>\<open>GET api.ror.org/organizations?affiliation=name\<close>\<close>
  | RorDetail string  \<comment> \<open>\<^verbatim>\<open>GET api.ror.org/v2/organizations/{id}\<close>\<close>

text \<open>
  The outside world: what each endpoint answers, given the requests sent before (so an
  answer may change from one call to the next, as when another curator edits a record).
  The rate limiter only delays a request and is not modelled; requests are recorded in
  the order they are sent.
\<close>

record server =
  sv_page :: "request list \<Rightarrow> nat \<Rightarrow> PageResponse response"
  sv_org :: "request list \<Rightarrow> string \<Rightarrow> ExtOrgItem response"
  sv_put :: "request list \<Rightarrow> string \<Rightarrow> string \<Rightarrow> Identifier list \<Rightarrow> ExtOrgItem response"
  sv_search :: "request list \<Rightarrow> string \<Rightarrow> RawHit list option response"
  sv_detail :: "request list \<Rightarrow> string \<Rightarrow> Location list option response"

fun string_of_nat :: "nat \<Rightarrow> string" where
  "string_of_nat n =
     (if n < 10 then [char_of (48 + n)]
      else string_of_nat (n div 10) @ [char_of (48 + n mod 10)])"

declare string_of_nat.simps [simp del]

subsection \<open>The catalog client\<close>

definition getCount :: "server \<Rightarrow> request list \<Rightarrow> (js_error + nat) \<times> request list" where
  "getCount sv lg =
     (let lg' = lg @ [GetPage 0]
      in case sv_page sv lg 0 of
           Rejected m \<Rightarrow> (Inl (TypeError m), lg')
         | Response st stx b \<Rightarrow>
             if \<not> is_ok st
             then (Inl (Error (''Failed to fetch count: '' @ string_of_nat st @ '' '' @ stx)), lg')
             else (case b of
                     Unparsable m \<Rightarrow> (Inl (SyntaxError m), lg')
                   | Json d \<Rightarrow> (Inr (page_count d), lg')))"

text \<open>\<open>rnd\<close> is the value of \<^verbatim>\<open>Math.random()\<close>.\<close>

definition eligible :: "ExtOrgItem \<Rightarrow> bool" where
  "eligible item =
     ((workflow_step item = Some ''forApproval'' \<or> workflow_step item = Some ''approved'') \<and>
      \<not> hasRorIdentifier (identifiers item))"

definition fetchRandomOrg ::
  "server \<Rightarrow> real \<Rightarrow> request list \<Rightarrow> (js_error + ExtOrgItem option) \<times> request list" where
  "fetchRandomOrg sv rnd lg =
     (case getCount sv lg of
        (Inl e, lg1) \<Rightarrow> (Inl e, lg1)
      | (Inr cnt, lg1) \<Rightarrow>
          if cnt = 0 then (Inr None, lg1)
          else
            (let offset = nat \<lfloor>rnd * real cnt\<rfloor>;
                 lg2 = lg1 @ [GetPage offset]
             in case sv_page sv lg1 offset of
                  Rejected m \<Rightarrow> (Inl (TypeError m), lg2)
                | Response st stx b \<Rightarrow>
                    if \<not> is_ok st
                    then (Inl (Error (''Failed to fetch org: '' @ string_of_nat st)), lg2)
                    else (case b of
                            Unparsable m \<Rightarrow> (Inl (SyntaxError m), lg2)
                          | Json d \<Rightarrow>
                              (case page_items d of
                                 [] \<Rightarrow> (Inr None, lg2)
                               | item # _ \<Rightarrow>
                                   if eligible item then (Inr (Some item), lg2)
                                   else (Inr None, lg2)))))"

definition fetchOrg ::
  "server \<Rightarrow> string \<Rightarrow> request list \<Rightarrow> (js_error + ExtOrgItem) \<times> request list" where
  "fetchOrg sv u lg =
     (let lg' = lg @ [GetOrg u]
      in case sv_org sv lg u of
           Rejected m \<Rightarrow> (Inl (TypeError m), lg')
         | Response st stx b \<Rightarrow>
             if \<not> is_ok st
             then (Inl (Error (''Failed to fetch organization: '' @ string_of_nat st)), lg')
             else (case b of
                     Unparsable m \<Rightarrow> (Inl (SyntaxError m), lg')
                   | Json d \<Rightarrow> (Inr d, lg')))"

text \<open>
  What \<^verbatim>\<open>putOrg\<close> returns: the parsed body, or \<^verbatim>\<open>{ status: res.status }\<close> when the
  body does not parse.
\<close>

datatype put_result = StatusOnly nat | Updated ExtOrgItem

definition putOrg ::
  "server \<Rightarrow> string \<Rightarrow> string \<Rightarrow> Identifier list \<Rightarrow> request list \<Rightarrow>
   (js_error + put_result) \<times> request list" where
  "putOrg sv u v ids lg =
     (let lg' = lg @ [PutOrg u v ids]
      in case sv_put sv lg u v ids of
           Rejected m \<Rightarrow> (Inl (TypeError m), lg')
         | Response st stx b \<Rightarrow>
             (let responseBody = (case b of Unparsable m \<Rightarrow> StatusOnly st | Json d \<Rightarrow> Updated d)
              in if \<not> is_ok st then (Inl (Error (''PUT failed: '' @ string_of_nat st)), lg')
                 else (Inr responseBody, lg')))"

subsection \<open>The registry client\<close>

definition Number_of :: "jsnum option \<Rightarrow> jsnum" where
  "Number_of v = (case v of None \<Rightarrow> NaN | Some n \<Rightarrow> n)"

definition empty_org :: RorOrg where
  "empty_org =
     \<lparr>ror_id = None, ror_name = None, ror_names = None, ror_aliases = None, ror_locations = None\<rparr>"

definition to_candidate :: "RawHit \<Rightarrow> Candidate" where
  "to_candidate it =
     (let r = (case organization it of None \<Rightarrow> empty_org | Some r \<Rightarrow> r);
          sc = Number_of (hit_score it)
      in \<lparr>ror_id = ror_id r, ror_name = ror_name r, ror_names = ror_names r,
          ror_aliases = ror_aliases r, ror_locations = ror_locations r,
          scoreLocal = (case sc of Finite x \<Rightarrow> x | _ \<Rightarrow> 0),
          matching_type = hit_matching_type it,
          chosen = hit_chosen it,
          substring = hit_substring it\<rparr>)"

text \<open>
  One detail lookup. Everything that throws inside the \<^verbatim>\<open>try\<close> (no id to call
  \<^verbatim>\<open>replace\<close> on, a rejected fetch, a body that does not parse) ends in
  \<^verbatim>\<open>return item\<close>, as a status that is not ok does.
\<close>

definition enrich :: "server \<Rightarrow> Candidate \<Rightarrow> request list \<Rightarrow> Candidate \<times> request list" where
  "enrich sv item lg =
     (case ror_id item of
        None \<Rightarrow> (item, lg)
      | Some i \<Rightarrow>
          (let rorId = replace_first ''https://ror.org/'' [] i;
               lg' = lg @ [RorDetail rorId]
           in case sv_detail sv lg rorId of
                Rejected m \<Rightarrow> (item, lg')
              | Response st stx b \<Rightarrow>
                  if is_ok st
                  then (case b of
                          Unparsable m \<Rightarrow> (item, lg')
                        | Json locs \<Rightarrow> (item\<lparr>ror_locations := locs\<rparr>, lg'))
                  else (item, lg')))"

text \<open>
  \<^verbatim>\<open>Promise.all(items.slice(0, 10).map(async ...))\<close>: the lookups are started in list
  order, and the results come back in list order.
\<close>

fun enrich_all :: "server \<Rightarrow> Candidate list \<Rightarrow> request list \<Rightarrow> Candidate list \<times> request list" where
  "enrich_all sv [] lg = ([], lg)"
| "enrich_all sv (c # cs) lg =
     (case enrich sv c lg of
        (c', lg') \<Rightarrow> (case enrich_all sv cs lg' of (cs', lg'') \<Rightarrow> (c' # cs', lg'')))"

section \<open>The component's state and its actions\<close>

datatype Toast = Success string | Failure string

record app_state =
  points :: "int option"
  history :: "HistoryEntry list"
  org :: "ExtOrgItem option"
  candidates :: "Candidate list"
  selectedIdx :: "int option"
  error :: "string option"
  loading :: bool
  toast :: "Toast option"
  confirmOpen :: bool
  requests :: "request list"

definition searchRor :: "server \<Rightarrow> ExtOrgItem \<Rightarrow> app_state \<Rightarrow> (js_error + Candidate list) \<times> app_state" where
  "searchRor sv o_item s =
     (let nameOnly = trim (fst (pickPreferredLocale (org_name o_item)))
      in if nameOnly = [] then (Inr [], s)
         else
           (let s1 = s\<lparr>requests := requests s @ [RorSearch nameOnly]\<rparr>
            in case sv_search sv (requests s) nameOnly of
                 Rejected m \<Rightarrow> (Inl (TypeError m), s1)
               | Response st stx b \<Rightarrow>
                   if \<not> is_ok st
                   then (Inl (Error (''ROR affiliation search failed: '' @ string_of_nat st)), s1)
                   else (case b of
                           Unparsable m \<Rightarrow> (Inl (SyntaxError m), s1)
                         | Json data \<Rightarrow>
                             (let raw = (case data of None \<Rightarrow> [] | Some xs \<Rightarrow> xs);
                                  items = rank (map to_candidate raw)
                              in case enrich_all sv (take 10 items) (requests s1) of
                                   (itemsWithLocations, lg) \<Rightarrow>
                                     (let s2 = s1\<lparr>requests := lg\<rparr>;
                                          top = (case itemsWithLocations of
                                                   [] \<Rightarrow> 0
                                                 | c # _ \<Rightarrow> scoreLocal c)
                                      in (Inr itemsWithLocations,
                                          if top \<ge> 0.7 then s2\<lparr>selectedIdx := Some 0\<rparr> else s2))))))"

text \<open>\<^verbatim>\<open>e.message || String(e)\<close>\<close>

definition err_message :: "js_error \<Rightarrow> string" where
  "err_message e = (case e of Error m \<Rightarrow> m | TypeError m \<Rightarrow> m | SyntaxError m \<Rightarrow> m)"

definition err_name :: "js_error \<Rightarrow> string" where
  "err_name e =
     (case e of Error m \<Rightarrow> ''Error'' | TypeError m \<Rightarrow> ''TypeError'' | SyntaxError m \<Rightarrow> ''SyntaxError'')"

definition message_or_string :: "js_error \<Rightarrow> string" where
  "message_or_string e = (if err_message e \<noteq> [] then err_message e else err_name e)"

definition loadNext :: "server \<Rightarrow> real \<Rightarrow> app_state \<Rightarrow> app_state" where
  "loadNext sv rnd s =
     (let s0 = s\<lparr>error := None, loading := True, candidates := [], selectedIdx := None, org := None\<rparr>
      in case fetchRandomOrg sv rnd (requests s0) of
           (Inl e, lg) \<Rightarrow>
             s0\<lparr>requests := lg, error := Some (message_or_string e), loading := False\<rparr>
         | (Inr None, lg) \<Rightarrow>
             s0\<lparr>requests := lg,
                error := Some ''No eligible external organizations found right now.'',
                loading := False\<rparr>
         | (Inr (Some candidate), lg) \<Rightarrow>
             (case searchRor sv candidate (s0\<lparr>requests := lg, org := Some candidate\<rparr>) of
                (Inl e, s2) \<Rightarrow> s2\<lparr>error := Some (message_or_string e), loading := False\<rparr>
              | (Inr rorList, s2) \<Rightarrow> s2\<lparr>candidates := rorList, loading := False\<rparr>))"

text \<open>\<^verbatim>\<open>candidates[selectedIdx]\<close>, \<open>None\<close> for \<^verbatim>\<open>undefined\<close>.\<close>

definition nth_opt :: "'a list \<Rightarrow> int \<Rightarrow> 'a option" where
  "nth_opt xs i = (if 0 \<le> i \<and> i < int (length xs) then Some (xs ! nat i) else None)"

definition or_else :: "string \<Rightarrow> string \<Rightarrow> string" where
  "or_else a b = (if a \<noteq> [] then a else b)"

definition ldquo :: string where
  "ldquo = [char_of (226 :: nat), char_of (128 :: nat), char_of (156 :: nat)]"

definition rdquo :: string where
  "rdquo = [char_of (226 :: nat), char_of (128 :: nat), char_of (157 :: nat)]"

text \<open>The \<^verbatim>\<open>catch\<close> and \<^verbatim>\<open>finally\<close> blocks of \<^verbatim>\<open>doLink\<close>.\<close>

definition link_failed :: "js_error \<Rightarrow> app_state \<Rightarrow> app_state" where
  "link_failed e s =
     s\<lparr>error := Some (message_or_string e),
       toast := Some (Failure (''Failed to write to Pure: '' @ message_or_string e)),
       loading := False\<rparr>"

text \<open>
  \<open>ROR_TYPE\<close> is the identifier type of the configuration file, \<open>now\<close> the value of
  \<^verbatim>\<open>Date.now()\<close>, \<open>rnd\<close> the random number \<^verbatim>\<open>loadNext\<close> draws.
\<close>

definition doLink :: "server \<Rightarrow> IdentifierType \<Rightarrow> real \<Rightarrow> nat \<Rightarrow> app_state \<Rightarrow> app_state" where
  "doLink sv ROR_TYPE rnd now s =
     (case org s of
        None \<Rightarrow> s
      | Some cur \<Rightarrow>
          (case selectedIdx s of
             None \<Rightarrow> s
           | Some idx \<Rightarrow>
               if idx < 0 then s
               else
                 (let picked = nth_opt (candidates s) idx;
                      s1 = s\<lparr>loading := True, error := None\<rparr>
                  in case fetchOrg sv (uuid cur) (requests s1) of
                       (Inl e, lg) \<Rightarrow> link_failed e (s1\<lparr>requests := lg\<rparr>)
                     | (Inr latest, lg) \<Rightarrow>
                         (let s2 = s1\<lparr>requests := lg\<rparr>
                          in if hasRorIdentifier (identifiers latest)
                             then (loadNext sv rnd
                                     (s2\<lparr>toast := Some (Success ''Already linked: ROR ID is present.''),
                                         confirmOpen := False\<rparr>))
                                  \<lparr>loading := False\<rparr>
                             else
                               (case picked of
                                  None \<Rightarrow>
                                    link_failed
                                      (TypeError ''Cannot read properties of undefined (reading 'id')'') s2
                                | Some c \<Rightarrow>
                                    (let newIdentifiers =
                                           (case identifiers latest of None \<Rightarrow> [] | Some xs \<Rightarrow> xs) @
                                           [\<lparr>typeDiscriminator = Some ''ClassifiedId'',
                                             ident_id = ror_id c,
                                             ident_type = Some ROR_TYPE\<rparr>]
                                     in case putOrg sv (uuid latest) (version latest) newIdentifiers
                                               (requests s2) of
                                          (Inl e, lg3) \<Rightarrow> link_failed e (s2\<lparr>requests := lg3\<rparr>)
                                        | (Inr res, lg3) \<Rightarrow>
                                            (let sl = scoreLocal c;
                                                 nm = fst (pickPreferredLocale (org_name latest));
                                                 entry =
                                                   \<lparr>ts = now, h_uuid = uuid latest,
                                                    orgName = or_else nm ''External organization'',
                                                    rorId = ror_id c, score = sl,
                                                    matchType = matching_type c\<rparr>;
                                                 s3 = s2\<lparr>requests := lg3,
                                                         points := map_option (\<lambda>p. p + award sl) (points s2),
                                                         history := pushHistory entry (history s2),
                                                         toast := Some (Success (''Linked ROR to '' @ ldquo @
                                                                    or_else nm ''Org'' @ rdquo @ ''.'')),
                                                         confirmOpen := False\<rparr>
                                             in (loadNext sv rnd s3)\<lparr>loading := False\<rparr>)))))))"

section \<open>Notions used in the statements\<close>

text \<open>
  The order the comparator induces, as a sort key (not chosen after chosen, then the
  higher score first) and as a relation between an earlier and a later candidate.
\<close>

definition rank_key :: "Candidate \<Rightarrow> nat \<times> real" where
  "rank_key c = (if chosen c then 0 else 1, - scoreLocal c)"

definition ranked_before :: "Candidate \<Rightarrow> Candidate \<Rightarrow> bool" where
  "ranked_before a b \<longleftrightarrow>
     (chosen a \<and> \<not> chosen b) \<or> (chosen a = chosen b \<and> scoreLocal b \<le> scoreLocal a)"

text \<open>Sample data for the concrete instances below.\<close>

definition sample_candidate :: "string \<Rightarrow> real \<Rightarrow> bool \<Rightarrow> Candidate" where
  "sample_candidate i sc ch =
     \<lparr>ror_id = Some i, ror_name = None, ror_names = None, ror_aliases = None,
      ror_locations = None, scoreLocal = sc, matching_type = None, chosen = ch,
      substring = None\<rparr>"

definition mit_org :: RorOrg where
  "mit_org =
     \<lparr>ror_id = Some ''https://ror.org/042nb2s44'',
      ror_name = Some ''Massachusetts Institute of Technology'',
      ror_names = None, ror_aliases = Some [''MIT'', ''mit''], ror_locations = None\<rparr>"

text \<open>
  The wording of the specification for a registry identifier: an identifier whose type
  URI ends in the registry suffix, whatever its discriminator. \<^const>\<open>isRorIdentifier\<close>
  asks for the discriminator \<^verbatim>\<open>ClassifiedId\<close> as well.
\<close>

definition type_uri_ends_in_ror :: "Identifier \<Rightarrow> bool" where
  "type_uri_ends_in_ror i =
     (case ident_type i of
        None \<Rightarrow> False
      | Some t \<Rightarrow> (case idt_uri t of None \<Rightarrow> False | Some u \<Rightarrow> suffix ''/ror'' u))"

text \<open>A server that gives the same answer to every request of a kind.\<close>

definition sample_server ::
  "PageResponse response \<Rightarrow> ExtOrgItem response \<Rightarrow> ExtOrgItem response \<Rightarrow>
   RawHit list option response \<Rightarrow> Location list option response \<Rightarrow> server" where
  "sample_server pg og pt sr dt =
     \<lparr>sv_page = (\<lambda>_ _. pg), sv_org = (\<lambda>_ _. og), sv_put = (\<lambda>_ _ _ _. pt),
      sv_search = (\<lambda>_ _. sr), sv_detail = (\<lambda>_ _. dt)\<rparr>"

definition put_only :: "ExtOrgItem response \<Rightarrow> server" where
  "put_only pt = sample_server (Rejected ''Failed to fetch'') (Rejected ''Failed to fetch'') pt (Rejected ''Failed to fetch'') (Rejected ''Failed to fetch'')"

text \<open>The identifier type of the example configuration in the README.\<close>

definition ror_type :: IdentifierType where
  "ror_type =
     \<lparr>idt_uri = Some ''/dk/atira/pure/ueoexternalorganisation/ueoexternalorganisationsources/ror'',
      idt_term = [(''en_GB'', ''ROR ID''), (''da_DK'', ''ROR ID'')]\<rparr>"

text \<open>An identifier with that type and another discriminator.\<close>

definition plain_id :: Identifier where
  "plain_id =
     \<lparr>typeDiscriminator = Some ''Id'', ident_id = Some ''https://ror.org/042nb2s44'',
      ident_type = Some ror_type\<rparr>"

definition sample_org :: "Identifier list \<Rightarrow> ExtOrgItem" where
  "sample_org ids =
     \<lparr>uuid = ''u1'', version = ''v1'', org_name = Some [(''en_GB'', ''MIT'')],
      identifiers = Some ids, workflow_step = Some ''approved''\<rparr>"

definition page_of :: "ExtOrgItem list \<Rightarrow> PageResponse response" where
  "page_of its = Response 200 ''OK'' (Json \<lparr>page_count = 7, page_items = its\<rparr>)"

definition page_server :: "ExtOrgItem list \<Rightarrow> server" where
  "page_server its =
     sample_server (page_of its) (Rejected ''Failed to fetch'') (Rejected ''Failed to fetch'') (Rejected ''Failed to fetch'') (Rejected ''Failed to fetch'')"

text \<open>Which requests are writes.\<close>

definition is_put :: "request \<Rightarrow> bool" where
  "is_put r = (case r of PutOrg u v ids \<Rightarrow> True | _ \<Rightarrow> False)"

text \<open>The detail request a candidate gives rise to: none when it has no id.\<close>

definition detail_request :: "Candidate \<Rightarrow> request list" where
  "detail_request c =
     (case ror_id c of
        None \<Rightarrow> []
      | Some i \<Rightarrow> [RorDetail (replace_first ''https://ror.org/'' [] i)])"

text \<open>
  A detail lookup fails when the candidate has no id, the fetch is rejected, the status
  is not a success, or the body does not parse.
\<close>

definition lookup_failed :: "server \<Rightarrow> Candidate \<Rightarrow> request list \<Rightarrow> bool" where
  "lookup_failed sv c lg =
     (case ror_id c of
        None \<Rightarrow> True
      | Some i \<Rightarrow>
          (case sv_detail sv lg (replace_first ''https://ror.org/'' [] i) of
             Rejected m \<Rightarrow> True
           | Response st stx b \<Rightarrow>
               \<not> is_ok st \<or> (case b of Unparsable m \<Rightarrow> True | Json d \<Rightarrow> False)))"

text \<open>A candidate without its location data.\<close>

definition unenriched :: "Candidate \<Rightarrow> Candidate" where
  "unenriched c = c\<lparr>ror_locations := None\<rparr>"

text \<open>The sorted \<^verbatim>\<open>items\<close> of \<^verbatim>\<open>searchRor\<close> for a response body.\<close>

definition ranked_hits :: "RawHit list option \<Rightarrow> Candidate list" where
  "ranked_hits data = rank (map to_candidate (case data of None \<Rightarrow> [] | Some xs \<Rightarrow> xs))"

text \<open>
  The state \<^verbatim>\<open>doLink\<close> hands to \<^verbatim>\<open>loadNext\<close> when the record it fetched again
  is linked already, and the identifier it appends otherwise.
\<close>

definition already_linked_state :: "app_state \<Rightarrow> string \<Rightarrow> app_state" where
  "already_linked_state s u =
     s\<lparr>loading := True, error := None, requests := requests s @ [GetOrg u],
       toast := Some (Success ''Already linked: ROR ID is present.''), confirmOpen := False\<rparr>"

definition new_identifier :: "IdentifierType \<Rightarrow> Candidate \<Rightarrow> Identifier" where
  "new_identifier ROR_TYPE c =
     \<lparr>typeDiscriminator = Some ''ClassifiedId'', ident_id = ror_id c, ident_type = Some ROR_TYPE\<rparr>"

text \<open>More sample data: search hits, a freshly started component, a selection.\<close>

definition numbered_hit :: "nat \<Rightarrow> RawHit" where
  "numbered_hit n =
     \<lparr>organization = Some (empty_org\<lparr>ror_id := Some (''https://ror.org/0'' @ string_of_nat n)\<rparr>),
      hit_score = Some (Finite (1 - real n / 100)),
      hit_matching_type = Some ''FUZZY'', hit_chosen = False, hit_substring = None\<rparr>"

definition search_server :: "RawHit list \<Rightarrow> server" where
  "search_server hits =
     sample_server (Rejected ''Failed to fetch'') (Rejected ''Failed to fetch'')
       (Rejected ''Failed to fetch'') (Response 200 ''OK'' (Json (Some hits)))
       (Rejected ''Failed to fetch'')"

definition init_state :: app_state where
  "init_state =
     \<lparr>points = Some 0, history = [], org = None, candidates = [], selectedIdx = None,
      error = None, loading = False, toast = None, confirmOpen = False, requests = []\<rparr>"

definition link_server :: "Identifier list \<Rightarrow> server" where
  "link_server ids =
     sample_server (Rejected ''Failed to fetch'') (Response 200 ''OK'' (Json (sample_org ids)))
       (Response 200 ''OK'' (Unparsable ''Unexpected end of JSON input''))
       (Rejected ''Failed to fetch'') (Rejected ''Failed to fetch'')"

definition mit_candidate :: Candidate where
  "mit_candidate = sample_candidate ''https://ror.org/042nb2s44'' 0.95 True"

definition selected_state :: app_state where
  "selected_state =
     init_state\<lparr>org := Some (sample_org []), candidates := [mit_candidate], selectedIdx := Some 0\<rparr>"

section \<open>Properties of the progress tracker\<close>

lemma award_cases: "award s = 10 \<or> award s = 5 \<or> award s = 1"
  by (simp add: award_def)

text \<open>
  C8. The award is 10 points from a score of 0.8, 5 points from 0.6 and below 0.8, and 1
  point below 0.6; so 0.9 and 0.8 give 10, 0.79999 and 0.6 give 5, and 0.1 gives 1.
\<close>

theorem award_tiers:
  "(s \<ge> 0.8 \<longrightarrow> award s = 10) \<and>
   (0.6 \<le> s \<and> s < 0.8 \<longrightarrow> award s = 5) \<and>
   (s < 0.6 \<longrightarrow> award s = 1) \<and>
   award 0.9 = 10 \<and> award 0.8 = 10 \<and> award 0.79999 = 5 \<and> award 0.6 = 5 \<and> award 0.1 = 1"
  by (simp add: award_def)

theorem award_tiers_witness:
  "(0.95::real) \<ge> 0.8 \<and> award 0.95 = 10 \<and> (0.6::real) \<le> 0.7 \<and> (0.7::real) < 0.8 \<and> award 0.7 = 5 \<and>
   (0.3::real) < 0.6 \<and> award 0.3 = 1"
proof -
  have a: "award 0.95 = 10" using award_tiers [of "0.95"] by simp
  have b: "award 0.7 = 5" using award_tiers [of "0.7"] by simp
  have c: "award 0.3 = 1" using award_tiers [of "0.3"] by simp
  from a b c show ?thesis by simp
qed

lemma take_append_take: "take n (xs @ take n ys) = take n (xs @ ys)"
  by (simp add: min_def)

lemma foldl_pushHistory:
  "length h0 \<le> 50 \<Longrightarrow> foldl (\<lambda>h e. pushHistory e h) h0 es = take 50 (rev es @ h0)"
proof (induction es arbitrary: h0)
  case Nil
  then show ?case by simp
next
  case (Cons a es)
  have "length (pushHistory a h0) \<le> 50" by (simp add: pushHistory_def)
  then have "foldl (\<lambda>h e. pushHistory e h) h0 (a # es) = take 50 (rev es @ take 50 (a # h0))"
    using Cons.IH [of "pushHistory a h0"] by (simp add: pushHistory_def)
  also have "\<dots> = take 50 (rev es @ a # h0)"
    by (rule take_append_take)
  finally show ?case by simp
qed

text \<open>
  C9. Inserting an entry puts it in front and keeps the first 50 entries, so the oldest
  ones (at the end) are dropped and the history never has more than 50 entries. Inserting
  the entries \<open>es\<close> one after the other into the empty history leaves the last 50 of
  them, newest first; after 51 distinct insertions that is all of them but the first,
  in reverse order of insertion.
\<close>

theorem history_capped:
  "length (pushHistory e h) \<le> 50 \<and>
   pushHistory e h = e # take 49 h \<and>
   foldl (\<lambda>h e. pushHistory e h) [] es = take 50 (rev es) \<and>
   (length es = 51 \<and> distinct es \<longrightarrow>
      foldl (\<lambda>h e. pushHistory e h) [] es = rev (tl es) \<and>
      hd es \<notin> set (foldl (\<lambda>h e. pushHistory e h) [] es))"
proof -
  have a: "length (pushHistory e h) \<le> 50" by (simp add: pushHistory_def)
  have b: "pushHistory e h = e # take 49 h" by (simp add: pushHistory_def)
  have c: "foldl (\<lambda>h e. pushHistory e h) [] es = take 50 (rev es)"
    using foldl_pushHistory [of "[]" es] by simp
  have d: "foldl (\<lambda>h e. pushHistory e h) [] es = rev (tl es) \<and>
      hd es \<notin> set (foldl (\<lambda>h e. pushHistory e h) [] es)"
    if l: "length es = 51" and dist: "distinct es"
  proof -
    from l obtain x xs where es: "es = x # xs" by (cases es) auto
    with l have lx: "length xs = 50" by simp
    have "take 50 (rev es) = rev xs" using lx es by simp
    with c es dist show ?thesis by simp
  qed
  from a b c d show ?thesis by blast
qed

theorem history_capped_witness:
  "length [0 ..< 51] = 51 \<and> distinct [0 ..< 51] \<and>
   foldl (\<lambda>h e. pushHistory e h) [] [0 ..< 51] = rev (tl [0 ..< 51]) \<and>
   hd [0 ..< 51] \<notin> set (foldl (\<lambda>h e. pushHistory e h) [] [0 ..< 51])"
proof -
  have h: "length [0 ..< 51] = 51 \<and> distinct [0 ..< 51]" by simp
  from history_capped [of "0::nat" "[]" "[0 ..< 51]"] h show ?thesis by blast
qed

text \<open>
  C10 (the code departs from the claim). A stored points string without a leading number
  is loaded as \<^verbatim>\<open>NaN\<close>, not as 0: only a missing or empty value falls back to 0.
\<close>

theorem load_points_malformed:
  "load_points (Some ''abc'') = None \<and> load_points (Some ''NaN'') = None \<and>
   load_points None = Some 0 \<and> load_points (Some []) = Some 0"
  by code_simp

lemma load_history_unparsable:
  "parse (case stored of None \<Rightarrow> ''[]'' | Some s \<Rightarrow> if s = [] then ''[]'' else s) = None \<Longrightarrow>
   load_history parse none stored = none"
  by (simp add: load_history_def)

section \<open>Properties of the ranking\<close>

lemma rank_cmp_key: "rank_cmp a b \<le> 0 \<longleftrightarrow> rank_key a \<le> rank_key b"
  by (auto simp: rank_cmp_def rank_key_def Let_def)

lemma insort_cmp_key: "insort_cmp rank_cmp x ys = insort_key rank_key x ys"
  by (induction ys) (simp_all add: rank_cmp_key)

lemma rank_sort_key: "rank xs = sort_key rank_key xs"
  by (induction xs) (simp_all add: rank_def js_sort_def sort_key_def insort_cmp_key)

lemma key_le_ranked: "rank_key a \<le> rank_key b \<longleftrightarrow> ranked_before a b"
  by (auto simp: rank_key_def ranked_before_def)

lemma rank_sorted: "sorted_wrt ranked_before (rank xs)"
proof -
  have "sorted (map rank_key (sort_key rank_key xs))" by (rule sorted_sort_key)
  then show ?thesis by (simp add: sorted_map rank_sort_key key_le_ranked)
qed

lemma rank_stable:
  "filter (\<lambda>x. chosen x = c \<and> scoreLocal x = v) (rank xs) =
   filter (\<lambda>x. chosen x = c \<and> scoreLocal x = v) xs"
proof -
  have eq: "(\<lambda>x. chosen x = c \<and> scoreLocal x = v) = (\<lambda>x. rank_key x = (if c then 0 else 1, - v))"
    by (auto simp: rank_key_def fun_eq_iff)
  show ?thesis unfolding eq rank_sort_key by (rule sort_key_stable)
qed

lemma rank_mset: "mset (rank xs) = mset xs"
  by (simp add: rank_sort_key)

lemma rank_length: "length (rank xs) = length xs"
  by (simp add: rank_sort_key)

lemma rank_pair: "ranked_before a b \<Longrightarrow> rank [a, b] = [a, b]"
  by (simp add: rank_def js_sort_def rank_cmp_key key_le_ranked)

text \<open>
  C6. The ranking is a permutation of its input in which every earlier candidate is
  chosen when a later one is, and has a score at least as high when both have the same
  flag; candidates with the same flag and the same score keep their original order
  (stability). Of two candidates with score 0.95 of which only the first is chosen, the
  chosen one stays first.
\<close>

theorem rank_stable_order:
  "mset (rank xs) = mset xs \<and>
   sorted_wrt ranked_before (rank xs) \<and>
   filter (\<lambda>x. chosen x = c \<and> scoreLocal x = v) (rank xs) =
     filter (\<lambda>x. chosen x = c \<and> scoreLocal x = v) xs \<and>
   (chosen a \<and> \<not> chosen b \<and> scoreLocal a = 0.95 \<and> scoreLocal b = 0.95 \<longrightarrow>
      rank [a, b] = [a, b])"
proof -
  have "rank [a, b] = [a, b]" if "chosen a" and "\<not> chosen b"
    using that by (intro rank_pair) (simp add: ranked_before_def)
  then show ?thesis
    using rank_mset [of xs] rank_sorted [of xs] rank_stable [of c v xs] by blast
qed

theorem rank_stable_order_witness:
  "chosen (sample_candidate ''a'' 0.95 True) \<and>
   \<not> chosen (sample_candidate ''b'' 0.95 False) \<and>
   scoreLocal (sample_candidate ''a'' 0.95 True) = 0.95 \<and>
   scoreLocal (sample_candidate ''b'' 0.95 False) = 0.95 \<and>
   rank [sample_candidate ''a'' 0.95 True, sample_candidate ''b'' 0.95 False] =
     [sample_candidate ''a'' 0.95 True, sample_candidate ''b'' 0.95 False]"
proof -
  have h: "chosen (sample_candidate ''a'' 0.95 True) \<and>
     \<not> chosen (sample_candidate ''b'' 0.95 False) \<and>
     scoreLocal (sample_candidate ''a'' 0.95 True) = 0.95 \<and>
     scoreLocal (sample_candidate ''b'' 0.95 False) = 0.95"
    by (simp add: sample_candidate_def)
  from rank_stable_order
    [of "[]" True 0 "sample_candidate ''a'' 0.95 True" "sample_candidate ''b'' 0.95 False"] h
  show ?thesis by blast
qed

section \<open>Properties of the alias list\<close>

lemma set_dedupe: "set (dedupe seen xs) = set xs - set seen"
  by (induction xs arbitrary: seen) auto

lemma distinct_dedupe: "distinct (dedupe seen xs)"
  by (induction xs arbitrary: seen) (auto simp: set_dedupe)

lemma mit_display: "rorDisplayName mit_org = Some ''Massachusetts Institute of Technology''"
  by code_simp

text \<open>
  C7 as stated fails: the merged aliases go through a \<^verbatim>\<open>Set\<close>, which removes only
  identical strings, so two aliases that differ in case both stay.
\<close>

theorem alias_list_case_counterexample:
  "rorAliasList mit_org = Inr [''MIT'', ''mit''] \<and> toLowerCase ''MIT'' = toLowerCase ''mit''"
  by code_simp

text \<open>
  C7, amended. For a candidate with a display name, the alias list holds exactly the
  non-empty entries of the explicit alias list and of the alias-tagged names whose
  lower-case form differs from the lower-case display name; no string occurs twice in
  it (duplicates are removed by exact comparison), and it never contains the display
  name, compared without case.
\<close>

theorem alias_list_exact_dedupe:
  "rorDisplayName r = Some d \<Longrightarrow>
   \<exists>al. rorAliasList r = Inr al \<and>
        set al = {a \<in> set (fromAliasesField r) \<union> set (fromNames r).
                    a \<noteq> [] \<and> toLowerCase a \<noteq> toLowerCase d} \<and>
        distinct al \<and>
        toLowerCase d \<notin> toLowerCase ` set al"
  by (auto simp: rorAliasList_def Let_def from_Set_def set_dedupe distinct_dedupe)

theorem alias_list_exact_dedupe_witness:
  "rorDisplayName mit_org = Some ''Massachusetts Institute of Technology'' \<and>
   (\<exists>al. rorAliasList mit_org = Inr al \<and> distinct al \<and>
     toLowerCase ''Massachusetts Institute of Technology'' \<notin> toLowerCase ` set al)"
  using alias_list_exact_dedupe [OF mit_display] mit_display by blast

section \<open>Properties of the catalog client\<close>

lemma digits_value_snoc: "digits_value (ds @ [c]) = 10 * digits_value ds + (of_char c - 48)"
  by (simp add: digits_value_def)

lemma digits_value_string_of_nat: "digits_value (string_of_nat n) = n"
proof (induction n rule: string_of_nat.induct)
  case (1 n)
  show ?case
  proof (cases "n < 10")
    case True
    then show ?thesis
      by (subst string_of_nat.simps) (simp add: digits_value_def)
  next
    case False
    have "digits_value (string_of_nat n) =
        10 * digits_value (string_of_nat (n div 10)) + (of_char (char_of (48 + n mod 10) :: char) - 48)"
      using False by (subst string_of_nat.simps) (simp add: digits_value_snoc)
    also have "(of_char (char_of (48 + n mod 10) :: char) :: nat) = 48 + n mod 10"
      by simp
    finally show ?thesis using 1 False by simp
  qed
qed

lemma sv_put_put_only: "sv_put (put_only r) lg u v ids = r"
  by (simp add: put_only_def sample_server_def)

text \<open>
  C4 as stated fails: there is one kind of failure. A write rejected with status 409 (the
  answer to a stale version) and one rejected with status 500 both throw a plain
  \<^verbatim>\<open>Error\<close>; the two differ in the text of the message only.
\<close>

theorem putOrg_error_kind_counterexample:
  "fst (putOrg (put_only (Response 409 ''Conflict'' (Unparsable []))) ''u'' ''v'' [] []) =
     Inl (Error ''PUT failed: 409'') \<and>
   fst (putOrg (put_only (Response 500 ''Internal Server Error'' (Unparsable []))) ''u'' ''v'' [] []) =
     Inl (Error ''PUT failed: 500'') \<and>
   err_name (Error ''PUT failed: 409'') = err_name (Error ''PUT failed: 500'')"
  by code_simp

text \<open>
  C4, amended. An update sends one PUT request. When the answer has a status outside
  200..299, it fails with a plain \<^verbatim>\<open>Error\<close> whose message is \<^verbatim>\<open>PUT failed: \<close>
  followed by the status in decimal, whatever the status (a stale version is told from
  another failure by that number only). When the status is a success, it returns the
  parsed body, or the object that holds only the status when the body does not parse.
\<close>

theorem putOrg_outcomes:
  "sv_put sv lg u v ids = Response st stx b \<Longrightarrow>
   snd (putOrg sv u v ids lg) = lg @ [PutOrg u v ids] \<and>
   (\<not> is_ok st \<longrightarrow>
      fst (putOrg sv u v ids lg) = Inl (Error (''PUT failed: '' @ string_of_nat st)) \<and>
      digits_value (string_of_nat st) = st) \<and>
   (is_ok st \<longrightarrow>
      fst (putOrg sv u v ids lg) =
        Inr (case b of Unparsable m \<Rightarrow> StatusOnly st | Json d \<Rightarrow> Updated d))"
  by (simp add: putOrg_def Let_def digits_value_string_of_nat)

theorem putOrg_outcomes_witness:
  "sv_put (put_only (Response 200 ''OK'' (Unparsable ''Unexpected end of JSON input'')))
       [] ''u'' ''v'' [] =
     Response 200 ''OK'' (Unparsable ''Unexpected end of JSON input'') \<and>
   is_ok 200 \<and>
   putOrg (put_only (Response 200 ''OK'' (Unparsable ''Unexpected end of JSON input'')))
       ''u'' ''v'' [] [] =
     (Inr (StatusOnly 200), [PutOrg ''u'' ''v'' []])"
proof -
  have h: "sv_put (put_only (Response 200 ''OK'' (Unparsable ''Unexpected end of JSON input'')))
       [] ''u'' ''v'' [] =
     Response 200 ''OK'' (Unparsable ''Unexpected end of JSON input'')"
    by (rule sv_put_put_only)
  have ok: "is_ok 200" by (simp add: is_ok_def)
  from putOrg_outcomes [OF h] ok h show ?thesis
    by (simp add: prod_eq_iff)
qed

lemma eligible_iff:
  "eligible item \<longleftrightarrow>
     (workflow_step item = Some ''forApproval'' \<or> workflow_step item = Some ''approved'') \<and>
     \<not> (\<exists>i \<in> set (case identifiers item of None \<Rightarrow> [] | Some xs \<Rightarrow> xs).
           typeDiscriminator i = Some ''ClassifiedId'' \<and> type_uri_ends_in_ror i)"
  by (auto simp: eligible_def hasRorIdentifier_def isRorIdentifier_def type_uri_ends_in_ror_def
        list_ex_iff split: option.splits)

text \<open>
  C1 as stated fails: a record whose only identifier has a type URI ending in
  \<^verbatim>\<open>/ror\<close> but a discriminator other than \<^verbatim>\<open>ClassifiedId\<close> is returned.
\<close>

theorem fetchRandomOrg_discriminator_counterexample:
  "fst (fetchRandomOrg (page_server [sample_org [plain_id]]) (1/2) []) =
     Inr (Some (sample_org [plain_id])) \<and>
   identifiers (sample_org [plain_id]) = Some [plain_id] \<and>
   type_uri_ends_in_ror plain_id"
  by code_simp

text \<open>
  C1, amended. When the count request and the page request both succeed, the call has
  sent the count request and then exactly one page request, at the drawn offset. It
  returns the first record of that page if and only if the record's workflow step is
  \<^verbatim>\<open>forApproval\<close> or \<^verbatim>\<open>approved\<close> and none of its identifiers is a
  \<^verbatim>\<open>ClassifiedId\<close> whose type URI ends in \<^verbatim>\<open>/ror\<close>; otherwise, and for an
  empty page, it returns none, not an error.
\<close>

theorem fetchRandomOrg_probe:
  assumes cnt: "sv_page sv lg 0 = Response st0 stx0 (Json d0)" "is_ok st0" "page_count d0 > 0"
    and probe: "sv_page sv (lg @ [GetPage 0]) (nat \<lfloor>rnd * real (page_count d0)\<rfloor>) =
        Response st stx (Json d)" "is_ok st"
  shows "snd (fetchRandomOrg sv rnd lg) =
       lg @ [GetPage 0, GetPage (nat \<lfloor>rnd * real (page_count d0)\<rfloor>)] \<and>
     (page_items d = [] \<longrightarrow> fst (fetchRandomOrg sv rnd lg) = Inr None) \<and>
     (\<forall>item rest. page_items d = item # rest \<longrightarrow>
        (fst (fetchRandomOrg sv rnd lg) = Inr (Some item) \<or>
         fst (fetchRandomOrg sv rnd lg) = Inr None) \<and>
        (fst (fetchRandomOrg sv rnd lg) = Inr (Some item) \<longleftrightarrow>
           (workflow_step item = Some ''forApproval'' \<or> workflow_step item = Some ''approved'') \<and>
           \<not> (\<exists>i \<in> set (case identifiers item of None \<Rightarrow> [] | Some xs \<Rightarrow> xs).
                 typeDiscriminator i = Some ''ClassifiedId'' \<and> type_uri_ends_in_ror i)))"
proof -
  have gc: "getCount sv lg = (Inr (page_count d0), lg @ [GetPage 0])"
    using cnt by (simp add: getCount_def Let_def)
  show ?thesis
    using cnt(3) probe eligible_iff
    by (auto simp: fetchRandomOrg_def gc Let_def split: list.splits)
qed

lemma page_server_page: "sv_page (page_server its) lg n = page_of its"
  by (simp add: page_server_def sample_server_def)

theorem fetchRandomOrg_probe_witness:
  "sv_page (page_server [sample_org []]) [] 0 = Response 200 ''OK'' (Json \<lparr>page_count = 7, page_items = [sample_org []]\<rparr>) \<and>
   is_ok 200 \<and>
   fetchRandomOrg (page_server [sample_org []]) (1/2) [] =
     (Inr (Some (sample_org [])), [GetPage 0, GetPage 3])"
proof -
  let ?d = "\<lparr>page_count = 7, page_items = [sample_org []]\<rparr>"
  have h1: "sv_page (page_server [sample_org []]) [] 0 = Response 200 ''OK'' (Json ?d)"
    by (simp add: page_server_page page_of_def)
  have ok: "is_ok 200" by (simp add: is_ok_def)
  have pos: "page_count ?d > 0" by simp
  have h2: "sv_page (page_server [sample_org []]) ([] @ [GetPage 0]) (nat \<lfloor>(1/2) * real (page_count ?d)\<rfloor>) = Response 200 ''OK'' (Json ?d)"
    by (simp add: page_server_page page_of_def)
  have el: "workflow_step (sample_org []) = Some ''approved'' \<and> identifiers (sample_org []) = Some []"
    by (simp add: sample_org_def)
  have off: "nat \<lfloor>(1/2 :: real) * real (page_count ?d)\<rfloor> = 3" by simp
  from fetchRandomOrg_probe [OF h1 ok pos h2 ok]
  have "snd (fetchRandomOrg (page_server [sample_org []]) (1/2) []) = [GetPage 0, GetPage 3]"
    and "fst (fetchRandomOrg (page_server [sample_org []]) (1/2) []) = Inr (Some (sample_org []))"
    using el off by simp_all
  with h1 ok show ?thesis by (simp add: prod_eq_iff)
qed


section \<open>Properties of the registry client\<close>

lemma enrich_log: "snd (enrich sv c lg) = lg @ detail_request c"
  by (simp add: enrich_def detail_request_def Let_def split: option.splits response.splits body.splits)

lemma enrich_unenriched: "unenriched (fst (enrich sv c lg)) = unenriched c"
  by (simp add: enrich_def unenriched_def Let_def split: option.splits response.splits body.splits)

lemma enrich_failed: "lookup_failed sv c lg \<Longrightarrow> fst (enrich sv c lg) = c"
  by (simp add: enrich_def lookup_failed_def Let_def split: option.splits response.splits body.splits)

lemma enrich_all_length: "length (fst (enrich_all sv cs lg)) = length cs"
proof (induction cs arbitrary: lg)
  case Nil
  show ?case by simp
next
  case (Cons c cs)
  obtain c' lg' where e: "enrich sv c lg = (c', lg')" by (cases "enrich sv c lg")
  obtain cs' lg'' where ea: "enrich_all sv cs lg' = (cs', lg'')" by (cases "enrich_all sv cs lg'")
  then have "length cs' = length cs" using Cons.IH [of lg'] by simp
  with e ea show ?case by simp
qed

lemma enrich_all_log: "snd (enrich_all sv cs lg) = lg @ concat (map detail_request cs)"
proof (induction cs arbitrary: lg)
  case Nil
  show ?case by simp
next
  case (Cons c cs)
  obtain c' lg' where e: "enrich sv c lg = (c', lg')" by (cases "enrich sv c lg")
  then have lg': "lg' = lg @ detail_request c" using enrich_log [of sv c lg] by simp
  obtain cs' lg'' where ea: "enrich_all sv cs lg' = (cs', lg'')" by (cases "enrich_all sv cs lg'")
  then have "lg'' = lg' @ concat (map detail_request cs)" using Cons.IH [of lg'] by simp
  with e ea lg' show ?case by simp
qed

lemma enrich_all_unenriched: "map unenriched (fst (enrich_all sv cs lg)) = map unenriched cs"
proof (induction cs arbitrary: lg)
  case Nil
  show ?case by simp
next
  case (Cons c cs)
  obtain c' lg' where e: "enrich sv c lg = (c', lg')" by (cases "enrich sv c lg")
  then have c': "unenriched c' = unenriched c" using enrich_unenriched [of sv c lg] by simp
  obtain cs' lg'' where ea: "enrich_all sv cs lg' = (cs', lg'')" by (cases "enrich_all sv cs lg'")
  then have "map unenriched cs' = map unenriched cs" using Cons.IH [of lg'] by simp
  with e ea c' show ?case by simp
qed

lemma enrich_all_nth:
  "i < length cs \<Longrightarrow> \<exists>lg'. fst (enrich_all sv cs lg) ! i = fst (enrich sv (cs ! i) lg')"
proof (induction cs arbitrary: lg i)
  case Nil
  then show ?case by simp
next
  case (Cons c cs)
  obtain c' lg' where e: "enrich sv c lg = (c', lg')" by (cases "enrich sv c lg")
  obtain cs' lg'' where ea: "enrich_all sv cs lg' = (cs', lg'')" by (cases "enrich_all sv cs lg'")
  show ?case
  proof (cases i)
    case 0
    with e ea have "fst (enrich_all sv (c # cs) lg) ! i = fst (enrich sv ((c # cs) ! i) lg)" by simp
    then show ?thesis by blast
  next
    case (Suc j)
    with Cons.prems have "j < length cs" by simp
    from Cons.IH [OF this, of lg'] obtain l where "fst (enrich_all sv cs lg') ! j = fst (enrich sv (cs ! j) l)"
      by blast
    with e ea Suc have "fst (enrich_all sv (c # cs) lg) ! i = fst (enrich sv ((c # cs) ! i) l)" by simp
    then show ?thesis by blast
  qed
qed

lemma to_candidate_score:
  "scoreLocal (to_candidate h) = (case hit_score h of Some (Finite x) \<Rightarrow> x | _ \<Rightarrow> 0)"
  by (simp add: to_candidate_def Number_of_def Let_def split: option.splits jsnum.splits)

lemma searchRor_ok:
  assumes nm: "trim (fst (pickPreferredLocale (org_name item))) = nm" "nm \<noteq> []"
    and resp: "sv_search sv (requests s) nm = Response st stx (Json data)" "is_ok st"
  shows "fst (searchRor sv item s) =
           Inr (fst (enrich_all sv (take 10 (ranked_hits data)) (requests s @ [RorSearch nm])))"
    and "requests (snd (searchRor sv item s)) =
           snd (enrich_all sv (take 10 (ranked_hits data)) (requests s @ [RorSearch nm]))"
  using nm resp
  by (simp_all add: searchRor_def Let_def ranked_hits_def split: prod.splits)

text \<open>
  C5 as stated fails: of eleven hits, the search returns the ten best only; what it
  returns is the list that went through the detail lookups.
\<close>

theorem searchRor_eleven_hits_counterexample:
  "length (map numbered_hit [0..<11]) = 11 \<and>
   (case fst (searchRor (search_server (map numbered_hit [0..<11])) (sample_org []) init_state) of
      Inl e \<Rightarrow> []
    | Inr cs \<Rightarrow> map ror_id cs) =
     map (\<lambda>n. Some (''https://ror.org/0'' @ string_of_nat n)) [0..<10]"
  by code_simp

text \<open>
  C5, amended. A search whose affiliation request succeeds returns one candidate for each
  of the first ten ranked hits and no more (all of them when there are at most ten); the
  ranked list is a permutation of the hits' candidates in ranking order, and a hit's score
  is 0 when it is absent or not finite. Each returned candidate is the result of its own
  detail lookup, equal to the ranked candidate except for the location data; a lookup that
  fails leaves it as it was, and no lookup makes the search fail. The requests sent are
  the search and then one detail request for each of these candidates that has an id.
\<close>

theorem searchRor_top_ten:
  assumes nm: "trim (fst (pickPreferredLocale (org_name item))) = nm" "nm \<noteq> []"
    and resp: "sv_search sv (requests s) nm = Response st stx (Json data)" "is_ok st"
  shows "\<exists>cs. fst (searchRor sv item s) = Inr cs \<and>
      length cs = min 10 (length (case data of None \<Rightarrow> [] | Some xs \<Rightarrow> xs)) \<and>
      map unenriched cs = map unenriched (take 10 (ranked_hits data)) \<and>
      (\<forall>i < length cs. \<exists>lg. cs ! i = fst (enrich sv (ranked_hits data ! i) lg)) \<and>
      (\<forall>c lg. lookup_failed sv c lg \<longrightarrow> fst (enrich sv c lg) = c) \<and>
      mset (ranked_hits data) =
        mset (map to_candidate (case data of None \<Rightarrow> [] | Some xs \<Rightarrow> xs)) \<and>
      sorted_wrt ranked_before (ranked_hits data) \<and>
      (\<forall>h. scoreLocal (to_candidate h) = (case hit_score h of Some (Finite x) \<Rightarrow> x | _ \<Rightarrow> 0)) \<and>
      requests (snd (searchRor sv item s)) =
        requests s @ RorSearch nm # concat (map detail_request (take 10 (ranked_hits data)))"
proof -
  let ?top = "take 10 (ranked_hits data)"
  let ?cs = "fst (enrich_all sv ?top (requests s @ [RorSearch nm]))"
  have len: "length ?top = min 10 (length (case data of None \<Rightarrow> [] | Some xs \<Rightarrow> xs))"
    by (simp add: ranked_hits_def rank_length min.commute)
  have a: "fst (searchRor sv item s) = Inr ?cs" by (rule searchRor_ok [OF assms])
  have b: "length ?cs = min 10 (length (case data of None \<Rightarrow> [] | Some xs \<Rightarrow> xs))"
    by (simp only: enrich_all_length len)
  have c: "map unenriched ?cs = map unenriched ?top" by (rule enrich_all_unenriched)
  have d: "\<exists>lg. ?cs ! i = fst (enrich sv (ranked_hits data ! i) lg)" if "i < length ?cs" for i
  proof -
    from that have i: "i < length ?top" by (simp only: enrich_all_length)
    from enrich_all_nth [OF i] obtain l where "?cs ! i = fst (enrich sv (?top ! i) l)" by blast
    moreover from i have "?top ! i = ranked_hits data ! i" by simp
    ultimately show ?thesis by auto
  qed
  have e: "requests (snd (searchRor sv item s)) =
        requests s @ RorSearch nm # concat (map detail_request ?top)"
    by (simp add: searchRor_ok(2) [OF assms] enrich_all_log)
  have f: "mset (ranked_hits data) =
        mset (map to_candidate (case data of None \<Rightarrow> [] | Some xs \<Rightarrow> xs))"
    unfolding ranked_hits_def by (rule rank_mset)
  have g: "sorted_wrt ranked_before (ranked_hits data)"
    unfolding ranked_hits_def by (rule rank_sorted)
  from a b c d e f g enrich_failed to_candidate_score show ?thesis by blast
qed

lemma sv_search_search_server:
  "sv_search (search_server hits) lg nm = Response 200 ''OK'' (Json (Some hits))"
  by (simp add: search_server_def sample_server_def)

lemma sample_org_name: "trim (fst (pickPreferredLocale (org_name (sample_org ids)))) = ''MIT''"
  by code_simp

theorem searchRor_top_ten_witness:
  "trim (fst (pickPreferredLocale (org_name (sample_org [])))) = ''MIT'' \<and>
   sv_search (search_server [numbered_hit 1, numbered_hit 2]) (requests init_state) ''MIT'' =
     Response 200 ''OK'' (Json (Some [numbered_hit 1, numbered_hit 2])) \<and>
   is_ok 200 \<and>
   (\<exists>cs. fst (searchRor (search_server [numbered_hit 1, numbered_hit 2]) (sample_org []) init_state) =
           Inr cs \<and> length cs = 2)"
proof -
  have n: "''MIT'' \<noteq> []" by simp
  have ok: "is_ok 200" by (simp add: is_ok_def)
  from searchRor_top_ten
      [OF sample_org_name [of "[]"] n
          sv_search_search_server [of "[numbered_hit 1, numbered_hit 2]" "requests init_state"] ok]
  have "\<exists>cs. fst (searchRor (search_server [numbered_hit 1, numbered_hit 2]) (sample_org []) init_state) =
           Inr cs \<and> length cs = 2"
    by auto
  with sample_org_name [of "[]"] sv_search_search_server ok show ?thesis by blast
qed

section \<open>Properties of the link workflow\<close>

lemma detail_requests_no_put: "filter is_put (concat (map detail_request cs)) = []"
  by (induction cs) (simp_all add: detail_request_def is_put_def split: option.splits)

lemma getCount_log: "snd (getCount sv lg) = lg @ [GetPage 0]"
  by (simp add: getCount_def Let_def split: response.splits body.splits)

lemma fetchOrg_log: "snd (fetchOrg sv u lg) = lg @ [GetOrg u]"
  by (simp add: fetchOrg_def Let_def split: response.splits body.splits)

lemma putOrg_log: "snd (putOrg sv u v ids lg) = lg @ [PutOrg u v ids]"
  by (simp add: putOrg_def Let_def split: response.splits body.splits)

lemma fetchRandomOrg_requests:
  "\<exists>ex. snd (fetchRandomOrg sv rnd lg) = lg @ GetPage 0 # ex \<and> filter is_put ex = []"
proof -
  obtain r where gc: "getCount sv lg = (r, lg @ [GetPage 0])"
    using getCount_log [of sv lg] by (cases "getCount sv lg") simp
  show ?thesis
    by (cases r)
       (simp_all add: fetchRandomOrg_def gc Let_def is_put_def
          split: response.splits body.splits list.splits)
qed

lemma searchRor_requests:
  "\<exists>ex. requests (snd (searchRor sv item s)) = requests s @ ex \<and> filter is_put ex = []"
proof (cases "trim (fst (pickPreferredLocale (org_name item))) = []")
  case True
  then show ?thesis by (simp add: searchRor_def)
next
  case False
  let ?nm = "trim (fst (pickPreferredLocale (org_name item)))"
  show ?thesis
  proof (cases "sv_search sv (requests s) ?nm")
    case (Rejected m)
    with False show ?thesis by (simp add: searchRor_def Let_def is_put_def)
  next
    case (Response st stx b)
    show ?thesis
    proof (cases "is_ok st")
      case nok: False
      with False Response show ?thesis by (simp add: searchRor_def Let_def is_put_def)
    next
      case ok: True
      show ?thesis
      proof (cases b)
        case (Unparsable m)
        with False Response ok show ?thesis by (simp add: searchRor_def Let_def is_put_def)
      next
        case (Json data)
        have "requests (snd (searchRor sv item s)) =
            requests s @ RorSearch ?nm # concat (map detail_request (take 10 (ranked_hits data)))"
          using searchRor_ok(2) [OF refl False, of sv s st stx data] Response Json ok
          by (simp add: enrich_all_log)
        moreover have "filter is_put (RorSearch ?nm # concat (map detail_request (take 10 (ranked_hits data)))) = []"
          by (simp add: detail_requests_no_put) (simp add: is_put_def)
        ultimately show ?thesis by blast
      qed
    qed
  qed
qed

lemma searchRor_frame:
  "points (snd (searchRor sv item s)) = points s \<and>
   history (snd (searchRor sv item s)) = history s \<and>
   toast (snd (searchRor sv item s)) = toast s \<and>
   confirmOpen (snd (searchRor sv item s)) = confirmOpen s"
  by (simp add: searchRor_def Let_def split: response.splits body.splits prod.splits)

lemma loadNext_frame:
  "points (loadNext sv rnd s) = points s \<and>
   history (loadNext sv rnd s) = history s \<and>
   toast (loadNext sv rnd s) = toast s \<and>
   confirmOpen (loadNext sv rnd s) = confirmOpen s"
proof -
  let ?s0 = "s\<lparr>error := None, loading := True, candidates := [], selectedIdx := None, org := None\<rparr>"
  obtain r lg where f: "fetchRandomOrg sv rnd (requests ?s0) = (r, lg)"
    by (cases "fetchRandomOrg sv rnd (requests ?s0)")
  show ?thesis
  proof (cases r)
    case (Inl e)
    with f show ?thesis by (simp add: loadNext_def Let_def)
  next
    case (Inr found)
    show ?thesis
    proof (cases found)
      case None
      with f Inr show ?thesis by (simp add: loadNext_def Let_def)
    next
      case (Some cand)
      let ?s1 = "?s0\<lparr>requests := lg, org := Some cand\<rparr>"
      obtain r2 s2 where sr: "searchRor sv cand ?s1 = (r2, s2)" by (cases "searchRor sv cand ?s1")
      from searchRor_frame [of sv cand ?s1] sr
      have fr: "points s2 = points s" "history s2 = history s" "toast s2 = toast s"
        "confirmOpen s2 = confirmOpen s" by simp_all
      show ?thesis using f Inr Some sr fr
        by (cases r2) (simp_all add: loadNext_def Let_def)
    qed
  qed
qed

lemma loadNext_requests:
  "\<exists>ex. requests (loadNext sv rnd s) = requests s @ GetPage 0 # ex \<and> filter is_put ex = []"
proof -
  let ?s0 = "s\<lparr>error := None, loading := True, candidates := [], selectedIdx := None, org := None\<rparr>"
  obtain r lg where f: "fetchRandomOrg sv rnd (requests ?s0) = (r, lg)"
    by (cases "fetchRandomOrg sv rnd (requests ?s0)")
  from fetchRandomOrg_requests [of sv rnd "requests ?s0"] f
  obtain ex where lg: "lg = requests s @ GetPage 0 # ex" and np: "filter is_put ex = []"
    by auto
  show ?thesis
  proof (cases r)
    case (Inl e)
    with f lg np show ?thesis by (simp add: loadNext_def Let_def)
  next
    case (Inr found)
    show ?thesis
    proof (cases found)
      case None
      with f Inr lg np show ?thesis by (simp add: loadNext_def Let_def)
    next
      case (Some cand)
      let ?s1 = "?s0\<lparr>requests := lg, org := Some cand\<rparr>"
      obtain r2 s2 where sr: "searchRor sv cand ?s1 = (r2, s2)" by (cases "searchRor sv cand ?s1")
      from searchRor_requests [of sv cand ?s1] sr
      obtain ex2 where r2: "requests s2 = lg @ ex2" and np2: "filter is_put ex2 = []" by auto
      have "requests (loadNext sv rnd s) = requests s2"
        using f Inr Some sr by (cases r2) (simp_all add: loadNext_def Let_def)
      then have "requests (loadNext sv rnd s) = requests s @ GetPage 0 # (ex @ ex2)"
        using r2 lg by simp
      moreover have "filter is_put (ex @ ex2) = []" using np np2 by simp
      ultimately show ?thesis by blast
    qed
  qed
qed

lemma fetchOrg_ok:
  "sv_org sv lg u = Response st stx (Json latest) \<Longrightarrow> is_ok st \<Longrightarrow>
   fetchOrg sv u lg = (Inr latest, lg @ [GetOrg u])"
  by (simp add: fetchOrg_def Let_def)

lemma doLink_linked_eq:
  assumes "org s = Some cur" "selectedIdx s = Some idx" "0 \<le> idx"
    and "sv_org sv (requests s) (uuid cur) = Response st stx (Json latest)" "is_ok st"
    and "hasRorIdentifier (identifiers latest)"
  shows "doLink sv ROR_TYPE rnd now s =
         (loadNext sv rnd (already_linked_state s (uuid cur)))\<lparr>loading := False\<rparr>"
  using assms
  by (simp add: doLink_def Let_def fetchOrg_ok already_linked_state_def)

lemma hasRorIdentifier_iff:
  "hasRorIdentifier ids \<longleftrightarrow>
     (\<exists>i \<in> set (case ids of None \<Rightarrow> [] | Some xs \<Rightarrow> xs).
        typeDiscriminator i = Some ''ClassifiedId'' \<and> type_uri_ends_in_ror i)"
  by (auto simp: hasRorIdentifier_def isRorIdentifier_def type_uri_ends_in_ror_def list_ex_iff
        split: option.splits)

text \<open>
  C2 as stated fails: the test on the record fetched again looks at \<^verbatim>\<open>ClassifiedId\<close>
  identifiers only. When that record carries an identifier whose type URI ends in
  \<^verbatim>\<open>/ror\<close> under another discriminator, confirming the link sends a PUT request,
  awards points and adds a history entry.
\<close>

theorem doLink_unrecognised_identifier_counterexample:
  "sv_org (link_server [plain_id]) (requests selected_state) (uuid (sample_org [])) =
     Response 200 ''OK'' (Json (sample_org [plain_id])) \<and>
   identifiers (sample_org [plain_id]) = Some [plain_id] \<and>
   type_uri_ends_in_ror plain_id \<and>
   filter is_put (requests (doLink (link_server [plain_id]) ror_type 0 0 selected_state)) =
     [PutOrg ''u1'' ''v1'' [plain_id, new_identifier ror_type mit_candidate]] \<and>
   points selected_state = Some 0 \<and>
   points (doLink (link_server [plain_id]) ror_type 0 0 selected_state) = Some 10 \<and>
   history selected_state = [] \<and>
   length (history (doLink (link_server [plain_id]) ror_type 0 0 selected_state)) = 1"
  by code_simp

text \<open>
  C2, amended. When a record and a candidate are selected and the record fetched again
  already has a registry identifier that \<^const>\<open>hasRorIdentifier\<close> recognises (a
  \<^verbatim>\<open>ClassifiedId\<close> whose type URI ends in \<^verbatim>\<open>/ror\<close>), confirming the link sends
  no PUT request, shows the success message "Already linked", closes the dialog, leaves
  points and history as they were, and goes on to load the next record: the request after
  the fetch is the count request of \<^const>\<open>loadNext\<close>, whose final state is the result.
\<close>

theorem doLink_already_linked:
  assumes "org s = Some cur" "selectedIdx s = Some idx" "0 \<le> idx"
    and "sv_org sv (requests s) (uuid cur) = Response st stx (Json latest)" "is_ok st"
    and "hasRorIdentifier (identifiers latest)"
  shows "filter is_put (requests (doLink sv ROR_TYPE rnd now s)) = filter is_put (requests s) \<and>
     toast (doLink sv ROR_TYPE rnd now s) = Some (Success ''Already linked: ROR ID is present.'') \<and>
     confirmOpen (doLink sv ROR_TYPE rnd now s) = False \<and>
     points (doLink sv ROR_TYPE rnd now s) = points s \<and>
     history (doLink sv ROR_TYPE rnd now s) = history s \<and>
     doLink sv ROR_TYPE rnd now s =
       (loadNext sv rnd (already_linked_state s (uuid cur)))\<lparr>loading := False\<rparr> \<and>
     take (length (requests s) + 2) (requests (doLink sv ROR_TYPE rnd now s)) =
       requests s @ [GetOrg (uuid cur), GetPage 0]"
proof -
  let ?s3 = "already_linked_state s (uuid cur)"
  have eq: "doLink sv ROR_TYPE rnd now s = (loadNext sv rnd ?s3)\<lparr>loading := False\<rparr>"
    by (rule doLink_linked_eq [OF assms])
  from loadNext_requests [of sv rnd ?s3]
  obtain ex where rq: "requests (loadNext sv rnd ?s3) = requests s @ GetOrg (uuid cur) # GetPage 0 # ex"
    and np: "filter is_put ex = []"
    by (auto simp: already_linked_state_def)
  have a: "filter is_put (requests (doLink sv ROR_TYPE rnd now s)) = filter is_put (requests s)"
    using rq np by (simp add: eq is_put_def)
  have b: "take (length (requests s) + 2) (requests (doLink sv ROR_TYPE rnd now s)) =
       requests s @ [GetOrg (uuid cur), GetPage 0]"
    using rq by (simp add: eq)
  have c: "toast (doLink sv ROR_TYPE rnd now s) = Some (Success ''Already linked: ROR ID is present.'')"
    "confirmOpen (doLink sv ROR_TYPE rnd now s) = False"
    "points (doLink sv ROR_TYPE rnd now s) = points s"
    "history (doLink sv ROR_TYPE rnd now s) = history s"
    using loadNext_frame [of sv rnd ?s3] by (simp_all add: eq already_linked_state_def)
  from a b c eq show ?thesis by simp
qed

lemma sv_org_link_server: "sv_org (link_server ids) lg u = Response 200 ''OK'' (Json (sample_org ids))"
  by (simp add: link_server_def sample_server_def)

theorem doLink_already_linked_witness:
  "org selected_state = Some (sample_org []) \<and>
   selectedIdx selected_state = Some 0 \<and>
   sv_org (link_server [new_identifier ror_type mit_candidate]) (requests selected_state)
       (uuid (sample_org [])) =
     Response 200 ''OK'' (Json (sample_org [new_identifier ror_type mit_candidate])) \<and>
   is_ok 200 \<and>
   hasRorIdentifier (identifiers (sample_org [new_identifier ror_type mit_candidate])) \<and>
   filter is_put
     (requests (doLink (link_server [new_identifier ror_type mit_candidate]) ror_type 0 0
        selected_state)) = [] \<and>
   toast (doLink (link_server [new_identifier ror_type mit_candidate]) ror_type 0 0 selected_state) =
     Some (Success ''Already linked: ROR ID is present.'') \<and>
   points (doLink (link_server [new_identifier ror_type mit_candidate]) ror_type 0 0 selected_state) =
     Some 0 \<and>
   history (doLink (link_server [new_identifier ror_type mit_candidate]) ror_type 0 0 selected_state) =
     []"
proof -
  have h1: "org selected_state = Some (sample_org [])"
    by (simp add: selected_state_def)
  have h2: "selectedIdx selected_state = Some 0"
    by (simp add: selected_state_def)
  have h3: "(0::int) \<le> 0" by simp
  have ok: "is_ok 200" by (simp add: is_ok_def)
  have h5: "hasRorIdentifier (identifiers (sample_org [new_identifier ror_type mit_candidate]))"
    by code_simp
  have st: "requests selected_state = []" "points selected_state = Some 0"
    "history selected_state = []"
    by (simp_all add: selected_state_def init_state_def)
  let ?s' = "doLink (link_server [new_identifier ror_type mit_candidate]) ror_type 0 0 selected_state"
  from doLink_already_linked [OF h1 h2 h3 sv_org_link_server ok h5, of ror_type 0 0]
  have "filter is_put (requests ?s') = filter is_put (requests selected_state)"
    and "toast ?s' = Some (Success ''Already linked: ROR ID is present.'')"
    and "points ?s' = points selected_state"
    and "history ?s' = history selected_state"
    by blast+
  with st have c: "filter is_put (requests ?s') = []"
    "toast ?s' = Some (Success ''Already linked: ROR ID is present.'')"
    "points ?s' = Some 0" "history ?s' = []"
    by simp_all
  from h1 h2 sv_org_link_server ok h5 c show ?thesis by blast
qed

lemma link_failed_requests: "requests (link_failed e s) = requests s"
  by (simp add: link_failed_def)

lemma doLink_requests:
  "(\<exists>ex. requests (doLink sv ROR_TYPE rnd now s) = requests s @ ex \<and> filter is_put ex = []) \<or>
   (\<exists>ex u0 u1 v1 old. \<exists>c :: Candidate.
      requests (doLink sv ROR_TYPE rnd now s) =
        requests s @ GetOrg u0 # PutOrg u1 v1 (old @ [new_identifier ROR_TYPE c]) # ex \<and>
      \<not> list_ex isRorIdentifier old \<and> filter is_put ex = [])"
proof (cases "org s")
  case None
  then have "requests (doLink sv ROR_TYPE rnd now s) = requests s @ []" by (simp add: doLink_def)
  then show ?thesis by (intro disjI1 exI [of _ "[]"]) simp
next
  case (Some cur)
  note cur = this
  show ?thesis
  proof (cases "selectedIdx s")
    case None
    with cur have "requests (doLink sv ROR_TYPE rnd now s) = requests s @ []"
      by (simp add: doLink_def)
    then show ?thesis by (intro disjI1 exI [of _ "[]"]) simp
  next
    case (Some idx)
    note idx = this
    show ?thesis
    proof (cases "idx < 0")
      case True
      with cur idx have "requests (doLink sv ROR_TYPE rnd now s) = requests s @ []"
        by (simp add: doLink_def)
      then show ?thesis by (intro disjI1 exI [of _ "[]"]) simp
    next
      case False
      let ?s1 = "s\<lparr>loading := True, error := None\<rparr>"
      let ?lg = "requests s @ [GetOrg (uuid cur)]"
      obtain r where fo: "fetchOrg sv (uuid cur) (requests s) = (r, ?lg)"
        using fetchOrg_log [of sv "uuid cur" "requests s"]
        by (cases "fetchOrg sv (uuid cur) (requests s)") simp
      show ?thesis
      proof (cases r)
        case (Inl e)
        with cur idx False fo
        have "requests (doLink sv ROR_TYPE rnd now s) = requests s @ [GetOrg (uuid cur)]"
          by (simp add: doLink_def Let_def link_failed_requests)
        then show ?thesis by (intro disjI1 exI [of _ "[GetOrg (uuid cur)]"]) (simp add: is_put_def)
      next
        case (Inr latest)
        let ?s2 = "?s1\<lparr>requests := ?lg\<rparr>"
        show ?thesis
        proof (cases "hasRorIdentifier (identifiers latest)")
          case True
          let ?s3 = "?s2\<lparr>toast := Some (Success ''Already linked: ROR ID is present.''),
                         confirmOpen := False\<rparr>"
          from loadNext_requests [of sv rnd ?s3]
          obtain ex where rq: "requests (loadNext sv rnd ?s3) = ?lg @ GetPage 0 # ex"
            and np: "filter is_put ex = []" by auto
          from cur idx False fo Inr True rq
          have "requests (doLink sv ROR_TYPE rnd now s) =
              requests s @ (GetOrg (uuid cur) # GetPage 0 # ex)"
            by (simp add: doLink_def Let_def)
          moreover have "filter is_put (GetOrg (uuid cur) # GetPage 0 # ex) = []"
            using np by (simp add: is_put_def)
          ultimately show ?thesis by blast
        next
          case nolink: False
          show ?thesis
          proof (cases "nth_opt (candidates s) idx")
            case None
            with cur idx False fo Inr nolink
            have "requests (doLink sv ROR_TYPE rnd now s) = requests s @ [GetOrg (uuid cur)]"
              by (simp add: doLink_def Let_def link_failed_requests)
            then show ?thesis
              by (intro disjI1 exI [of _ "[GetOrg (uuid cur)]"]) (simp add: is_put_def)
          next
            case (Some c)
            let ?old = "case identifiers latest of None \<Rightarrow> [] | Some xs \<Rightarrow> xs"
            let ?ids = "?old @ [new_identifier ROR_TYPE c]"
            let ?put = "PutOrg (uuid latest) (version latest) ?ids"
            have old: "\<not> list_ex isRorIdentifier ?old"
              using nolink by (simp add: hasRorIdentifier_def split: option.splits)
            obtain r3 where po: "putOrg sv (uuid latest) (version latest) ?ids ?lg = (r3, ?lg @ [?put])"
              using putOrg_log [of sv "uuid latest" "version latest" ?ids ?lg]
              by (cases "putOrg sv (uuid latest) (version latest) ?ids ?lg") simp
            show ?thesis
            proof (cases r3)
              case e: (Inl e)
              from cur idx False fo Inr nolink Some po e
              have "requests (doLink sv ROR_TYPE rnd now s) =
                  requests s @ GetOrg (uuid cur) # ?put # []"
                by (simp add: doLink_def Let_def link_failed_requests new_identifier_def)
              moreover have "filter is_put ([] :: request list) = []" by simp
              ultimately show ?thesis using old by blast
            next
              case res: (Inr res)
              let ?entry = "\<lparr>ts = now, h_uuid = uuid latest,
                   orgName = or_else (fst (pickPreferredLocale (org_name latest))) ''External organization'',
                   rorId = ror_id c, score = scoreLocal c, matchType = matching_type c\<rparr>"
              let ?s3 = "?s2\<lparr>requests := ?lg @ [?put],
                    points := map_option (\<lambda>p. p + award (scoreLocal c)) (points ?s2),
                    history := pushHistory ?entry (history ?s2),
                    toast := Some (Success (''Linked ROR to '' @ ldquo @
                       or_else (fst (pickPreferredLocale (org_name latest))) ''Org'' @ rdquo @ ''.'')),
                    confirmOpen := False\<rparr>"
              from loadNext_requests [of sv rnd ?s3]
              obtain ex where rq: "requests (loadNext sv rnd ?s3) = (?lg @ [?put]) @ GetPage 0 # ex"
                and np: "filter is_put ex = []" by auto
              from cur idx False fo Inr nolink Some po res rq
              have "requests (doLink sv ROR_TYPE rnd now s) =
                  requests s @ GetOrg (uuid cur) # ?put # (GetPage 0 # ex)"
                by (simp add: doLink_def Let_def new_identifier_def)
              moreover have "filter is_put (GetPage 0 # ex) = []"
                using np by (simp add: is_put_def)
              ultimately show ?thesis using old by blast
            qed
          qed
        qed
      qed
    qed
  qed
qed

text \<open>
  C3 as stated fails: the check before the write looks at \<^verbatim>\<open>ClassifiedId\<close>
  identifiers only. When the refreshed record has an identifier with another
  discriminator whose type URI ends in \<^verbatim>\<open>/ror\<close>, the written list has two
  identifiers with such a type URI.
\<close>

theorem doLink_second_ror_uri_counterexample:
  "requests (doLink (link_server [plain_id]) ror_type 0 0 selected_state) =
     [GetOrg ''u1'',
      PutOrg ''u1'' ''v1'' [plain_id, new_identifier ror_type mit_candidate],
      GetPage 0] \<and>
   length (filter type_uri_ends_in_ror [plain_id, new_identifier ror_type mit_candidate]) = 2"
  by code_simp

lemma doLink_put_shape:
  "PutOrg u v ids \<in> set (drop (length (requests s)) (requests (doLink sv ROR_TYPE rnd now s))) \<Longrightarrow>
   length (filter isRorIdentifier ids) \<le> 1 \<and>
   (\<exists>old c. ids = old @ [new_identifier ROR_TYPE c] \<and> \<not> list_ex isRorIdentifier old)"
proof -
  assume mem: "PutOrg u v ids \<in> set (drop (length (requests s)) (requests (doLink sv ROR_TYPE rnd now s)))"
  have np: "PutOrg u v ids \<notin> set ex" if "filter is_put ex = []" for ex
  proof
    assume "PutOrg u v ids \<in> set ex"
    then have "PutOrg u v ids \<in> set (filter is_put ex)" by (simp add: is_put_def)
    with that show False by simp
  qed
  from doLink_requests [of sv ROR_TYPE rnd now s]
  show ?thesis
  proof (elim disjE exE conjE)
    fix ex
    assume "requests (doLink sv ROR_TYPE rnd now s) = requests s @ ex" "filter is_put ex = []"
    with mem np show ?thesis by simp
  next
    fix ex u0 u1 v1 old and c :: Candidate
    assume rq: "requests (doLink sv ROR_TYPE rnd now s) =
        requests s @ GetOrg u0 # PutOrg u1 v1 (old @ [new_identifier ROR_TYPE c]) # ex"
      and old: "\<not> list_ex isRorIdentifier old" and ex: "filter is_put ex = []"
    from mem rq np [OF ex] have ids: "ids = old @ [new_identifier ROR_TYPE c]" by auto
    from old have "filter isRorIdentifier old = []"
      by (simp add: list_ex_iff filter_empty_conv)
    with ids old show ?thesis by auto
  qed
qed

lemma loadNext_no_put:
  "PutOrg u v ids \<notin> set (drop (length (requests s)) (requests (loadNext sv rnd s)))"
proof
  assume mem: "PutOrg u v ids \<in> set (drop (length (requests s)) (requests (loadNext sv rnd s)))"
  from loadNext_requests [of sv rnd s]
  obtain ex where rq: "requests (loadNext sv rnd s) = requests s @ GetPage 0 # ex"
    and np: "filter is_put ex = []" by blast
  from mem rq have "PutOrg u v ids \<in> set ex" by simp
  then have "PutOrg u v ids \<in> set (filter is_put ex)" by (simp add: is_put_def)
  with np show False by simp
qed

text \<open>
  C3, amended. Every identifier list that confirming a link writes has at most one
  identifier that is a \<^verbatim>\<open>ClassifiedId\<close> with a type URI ending in \<^verbatim>\<open>/ror\<close>: the
  list is the refreshed one, in which the check found none, followed by the one new
  identifier. Loading the next record writes nothing.
\<close>

theorem doLink_writes_one_ror:
  "(PutOrg u v ids \<in> set (drop (length (requests s)) (requests (doLink sv ROR_TYPE rnd now s))) \<longrightarrow>
      length (filter isRorIdentifier ids) \<le> 1 \<and>
      (\<exists>old c. ids = old @ [new_identifier ROR_TYPE c] \<and> \<not> list_ex isRorIdentifier old)) \<and>
   PutOrg u v ids \<notin> set (drop (length (requests s)) (requests (loadNext sv rnd s)))"
  using doLink_put_shape [of u v ids s sv ROR_TYPE rnd now] loadNext_no_put [of u v ids s sv rnd]
  by blast

theorem doLink_writes_one_ror_witness:
  "PutOrg ''u1'' ''v1'' [new_identifier ror_type mit_candidate] \<in>
     set (drop (length (requests selected_state))
            (requests (doLink (link_server []) ror_type 0 0 selected_state))) \<and>
   length (filter isRorIdentifier [new_identifier ror_type mit_candidate]) \<le> 1"
proof -
  have h: "PutOrg ''u1'' ''v1'' [new_identifier ror_type mit_candidate] \<in>
     set (drop (length (requests selected_state))
            (requests (doLink (link_server []) ror_type 0 0 selected_state)))"
    by code_simp
  from doLink_writes_one_ror
      [of "''u1''" "''v1''" "[new_identifier ror_type mit_candidate]" selected_state
          "link_server []" ror_type 0 0] h
  show ?thesis by blast
qed

end
